theory Spec2Isabelle
  imports Main "HOL-Library.Sublist"
begin

section \<open>awsalot: the RDS security-group connector\<close>

text \<open>
  A shallow embedding of \<^verbatim>\<open>awsalot/rds_sg_connector.py\<close>: the source resolver for ECS
  services, the target resolver for RDS instances, the ingress reconciler and the part of
  \<^verbatim>\<open>main\<close> that chains them.

  The cloud provider is a parameter: a record of three operations over an abstract provider
  state \<open>'s\<close>. The two describe operations only read the state; the authorize operation
  returns the state after the call. The answers of the interactive prompts (which source,
  which database instances, which description) are arguments of \<open>main\<close>.

  Everything observable is recorded, in program order, in a trace of events: each call to
  the provider and each line written by \<^verbatim>\<open>print\<close>. Creating an SDK client
  (\<^verbatim>\<open>boto3.client\<close>) is taken to succeed and leaves no event.
\<close>

subsection \<open>Python values\<close>

text \<open>
  The exceptions that can travel through the code. \<open>ClientError\<close> is botocore's; the
  constructor \<open>OtherError\<close> stands for any other exception that an SDK call raises
  (a connection failure, missing credentials, a parameter validation error).
\<close>

datatype exn =
    IndexError
  | KeyError string
  | ClientError string
  | OtherError string

text \<open>\<^verbatim>\<open>xs[0]\<close>\<close>

definition index0 :: "'a list \<Rightarrow> exn + 'a" where
  "index0 xs = (case xs of [] \<Rightarrow> Inl IndexError | x # _ \<Rightarrow> Inr x)"

text \<open>\<^verbatim>\<open>d[key]\<close> on a dictionary in which the key may be absent\<close>

definition getitem :: "string \<Rightarrow> 'a option \<Rightarrow> exn + 'a" where
  "getitem k v = (case v of None \<Rightarrow> Inl (KeyError k) | Some x \<Rightarrow> Inr x)"

definition then_exn :: "exn + 'a \<Rightarrow> ('a \<Rightarrow> exn + 'b) \<Rightarrow> exn + 'b" where
  "then_exn r f = (case r of Inl e \<Rightarrow> Inl e | Inr x \<Rightarrow> f x)"

text \<open>
  \<^verbatim>\<open>repr\<close> of a \<^verbatim>\<open>str\<close>, as the \<^verbatim>\<open>!r\<close> conversion of an f-string applies it. A string
  is read as a sequence of code points below 256. Python quotes with \<^verbatim>\<open>'\<close> unless the
  string holds a \<^verbatim>\<open>'\<close> and no \<^verbatim>\<open>"\<close>, escapes the quote and the backslash, writes tab,
  newline and carriage return as \<^verbatim>\<open>\t\<close>, \<^verbatim>\<open>\n\<close>, \<^verbatim>\<open>\r\<close>, and every other
  non-printable code point as \<^verbatim>\<open>\xhh\<close>.
\<close>

definition hex_digit :: "nat \<Rightarrow> char" where
  "hex_digit n = ''0123456789abcdef'' ! (n mod 16)"

definition repr_quote :: "string \<Rightarrow> char" where
  "repr_quote s =
     (if CHR 0x27 \<in> set s \<and> CHR 0x22 \<notin> set s then CHR 0x22 else CHR 0x27)"

definition printable :: "char \<Rightarrow> bool" where
  "printable c =
     (let n = (of_char c :: nat)
      in (32 \<le> n \<and> n < 127) \<or> (161 \<le> n \<and> n \<noteq> 173))"

definition repr_char :: "char \<Rightarrow> char \<Rightarrow> string" where
  "repr_char q c =
     (if c = q \<or> c = CHR 0x5C then [CHR 0x5C, c]
      else if c = CHR 0x09 then [CHR 0x5C, CHR ''t'']
      else if c = CHR 0x0A then [CHR 0x5C, CHR ''n'']
      else if c = CHR 0x0D then [CHR 0x5C, CHR ''r'']
      else if \<not> printable c
        then [CHR 0x5C, CHR ''x'', hex_digit (of_char c div 16), hex_digit (of_char c)]
      else [c])"

definition repr :: "string \<Rightarrow> string" where
  "repr s = (let q = repr_quote s in [q] @ concat (map (repr_char q) s) @ [q])"

text \<open>\<^verbatim>\<open>str(e)\<close>, as an f-string formats an exception\<close>

fun str_exn :: "exn \<Rightarrow> string" where
  "str_exn IndexError = ''list index out of range''"
| "str_exn (KeyError k) = repr k"
| "str_exn (ClientError m) = m"
| "str_exn (OtherError m) = m"

subsection \<open>Provider data\<close>

text \<open>
  The parts of the provider's responses that the code reads. A key that the provider's
  interface documents as optional is an \<open>option\<close>; the responses are otherwise
  well-typed.
\<close>

record awsvpc_configuration =
  securityGroups :: "string list option"

record network_configuration =
  awsvpcConfiguration :: "awsvpc_configuration option"

record deployment =
  networkConfiguration :: "network_configuration option"

record ecs_service =
  deployments :: "deployment list"

record vpc_security_group =
  VpcSecurityGroupId :: string

record db_instance =
  VpcSecurityGroups :: "vpc_security_group list"

text \<open>The keyword arguments of \<^verbatim>\<open>ec2.authorize_security_group_ingress\<close>.\<close>

record user_id_group_pair =
  SourceGroupId :: string
  Description :: string

record ip_permission =
  IpProtocol :: string
  FromPort :: int
  ToPort :: int
  UserIdGroupPairs :: "user_id_group_pair list"

record ingress_request =
  GroupId :: string
  IpPermissions :: "ip_permission list"

record 's provider =
  describe_services :: "'s \<Rightarrow> string \<Rightarrow> string \<Rightarrow> exn + ecs_service list"
  describe_db_instances :: "'s \<Rightarrow> string \<Rightarrow> exn + db_instance list"
  authorize_security_group_ingress :: "'s \<Rightarrow> ingress_request \<Rightarrow> (exn + unit) \<times> 's"

datatype event =
    DescribeServices string string
  | DescribeDBInstances string
  | AuthorizeIngress ingress_request
  | Print string

fun authorize_calls :: "event list \<Rightarrow> ingress_request list" where
  "authorize_calls [] = []"
| "authorize_calls (AuthorizeIngress r # t) = r # authorize_calls t"
| "authorize_calls (_ # t) = authorize_calls t"

fun db_lookups :: "event list \<Rightarrow> string list" where
  "db_lookups [] = []"
| "db_lookups (DescribeDBInstances i # t) = i # db_lookups t"
| "db_lookups (_ # t) = db_lookups t"

fun printed :: "event list \<Rightarrow> string list" where
  "printed [] = []"
| "printed (Print l # t) = l # printed t"
| "printed (_ # t) = printed t"

subsection \<open>Source resolver\<close>

text \<open>
  \<^verbatim>\<open>deployment["networkConfiguration"]["awsvpcConfiguration"]["securityGroups"]\<close>
\<close>

definition deployment_security_groups :: "deployment \<Rightarrow> exn + string list" where
  "deployment_security_groups d =
     then_exn (getitem ''networkConfiguration'' (networkConfiguration d)) (\<lambda>nc.
     then_exn (getitem ''awsvpcConfiguration'' (awsvpcConfiguration nc)) (\<lambda>v.
     getitem ''securityGroups'' (securityGroups v)))"

definition get_security_group_from_ecs_service ::
  "'s provider \<Rightarrow> 's \<Rightarrow> string \<Rightarrow> string \<Rightarrow> (exn + string) \<times> event list" where
  "get_security_group_from_ecs_service p s cluster service_arn =
     (then_exn (describe_services p s cluster service_arn) (\<lambda>services.
      then_exn (index0 services) (\<lambda>service.
      then_exn (index0 (deployments service)) (\<lambda>deployment.
      then_exn (deployment_security_groups deployment) (\<lambda>groups.
      index0 groups)))),
      [DescribeServices cluster service_arn])"

text \<open>\<^verbatim>\<open>s.split(":")[-1]\<close>: what follows the last colon\<close>

definition last_segment :: "string \<Rightarrow> string" where
  "last_segment s = rev (takeWhile (\<lambda>c. c \<noteq> CHR '':'') (rev s))"

text \<open>
  \<^verbatim>\<open>get_ecs_security_group\<close> after its prompt has been answered with a cluster and a
  service; \<^verbatim>\<open>get_ec2_security_group\<close> returns the pair of name and security group that
  its prompt selected.
\<close>

definition get_ecs_security_group ::
  "'s provider \<Rightarrow> 's \<Rightarrow> string \<Rightarrow> string \<Rightarrow> (exn + string \<times> string) \<times> event list" where
  "get_ecs_security_group p s cluster service =
     (case get_security_group_from_ecs_service p s cluster service of
        (Inl e, t) \<Rightarrow> (Inl e, t)
      | (Inr g, t) \<Rightarrow> (Inr (last_segment service, g), t))"

datatype selection =
    EcsService string string
  | Ec2Instance string string

fun get_source ::
  "'s provider \<Rightarrow> 's \<Rightarrow> selection \<Rightarrow> (exn + string \<times> string) \<times> event list" where
  "get_source p s (EcsService cluster service) = get_ecs_security_group p s cluster service"
| "get_source p s (Ec2Instance name security_group) = (Inr (name, security_group), [])"

subsection \<open>Target resolver\<close>

definition fetch_error_line :: "string \<Rightarrow> exn \<Rightarrow> string" where
  "fetch_error_line instance_identifier e =
     ''Error fetching security group IDs for RDS instance '' @ [CHR 0x27] @
     instance_identifier @ [CHR 0x27] @ '': '' @ str_exn e"

text \<open>The \<^verbatim>\<open>except Exception\<close> clause catches every exception of the lookup.\<close>

definition get_security_group_ids_for_rds_instance ::
  "'s provider \<Rightarrow> 's \<Rightarrow> string \<Rightarrow> string list \<times> event list" where
  "get_security_group_ids_for_rds_instance p s instance_identifier =
     (case describe_db_instances p s instance_identifier of
        Inl e \<Rightarrow>
          ([], [DescribeDBInstances instance_identifier,
                Print (fetch_error_line instance_identifier e)])
      | Inr db_instances \<Rightarrow>
          (case db_instances of
             d # _ \<Rightarrow>
               (map VpcSecurityGroupId (VpcSecurityGroups d),
                [DescribeDBInstances instance_identifier])
           | [] \<Rightarrow> ([], [DescribeDBInstances instance_identifier])))"

subsection \<open>Ingress reconciler\<close>

definition dry_run_line :: "string \<Rightarrow> string \<Rightarrow> string" where
  "dry_run_line security_group_id source_security_group_id =
     ''Dry run: Would update Security Group '' @ repr security_group_id @
     '' to allow connections from '' @ repr source_security_group_id"

definition success_line :: "string \<Rightarrow> string" where
  "success_line security_group_id =
     ''Security Group '' @ security_group_id @ '' updated successfully.''"

definition error_line :: "exn \<Rightarrow> string" where
  "error_line e = ''Error updating Security Group: '' @ str_exn e"

definition ingress_request_of ::
  "string \<Rightarrow> string \<Rightarrow> int \<Rightarrow> int \<Rightarrow> string \<Rightarrow> string \<Rightarrow> ingress_request" where
  "ingress_request_of security_group_id protocol from_port to_port
       source_security_group_id description =
     \<lparr>GroupId = security_group_id,
      IpPermissions =
        [\<lparr>IpProtocol = protocol, FromPort = from_port, ToPort = to_port,
          UserIdGroupPairs =
            [\<lparr>SourceGroupId = source_security_group_id, Description = description\<rparr>]\<rparr>]\<rparr>"

text \<open>
  Only \<open>ClientError\<close> is caught; any other exception of the call leaves the function.
\<close>

definition modify_security_group_rules ::
  "'s provider \<Rightarrow> 's \<Rightarrow> string \<Rightarrow> string \<Rightarrow> int \<Rightarrow> int \<Rightarrow> string \<Rightarrow> string \<Rightarrow> bool \<Rightarrow>
     (exn + unit) \<times> event list \<times> 's" where
  "modify_security_group_rules p s security_group_id protocol from_port to_port
       source_security_group_id description dry_run =
     (if dry_run
      then (Inr (), [Print (dry_run_line security_group_id source_security_group_id)], s)
      else
        (let req = ingress_request_of security_group_id protocol from_port to_port
                     source_security_group_id description
         in case authorize_security_group_ingress p s req of
              (Inr _, s') \<Rightarrow>
                (Inr (), [AuthorizeIngress req, Print (success_line security_group_id)], s')
            | (Inl (ClientError m), s') \<Rightarrow>
                (Inr (), [AuthorizeIngress req, Print (error_line (ClientError m))], s')
            | (Inl e, s') \<Rightarrow> (Inl e, [AuthorizeIngress req], s')))"

subsection \<open>The run\<close>

text \<open>
  The list comprehension of \<^verbatim>\<open>main\<close>:
  \<^verbatim>\<open>[get_security_group_ids_for_rds_instance(i)[0] for i in resources["rds_instances"]]\<close>.
  It is evaluated left to right and stops at the first exception.
\<close>

fun rds_security_groups ::
  "'s provider \<Rightarrow> 's \<Rightarrow> string list \<Rightarrow> (exn + string list) \<times> event list" where
  "rds_security_groups p s [] = (Inr [], [])"
| "rds_security_groups p s (rds_instance # rest) =
     (case get_security_group_ids_for_rds_instance p s rds_instance of
        (ids, t) \<Rightarrow>
          (case index0 ids of
             Inl e \<Rightarrow> (Inl e, t)
           | Inr g \<Rightarrow>
               (case rds_security_groups p s rest of
                  (Inl e, t') \<Rightarrow> (Inl e, t @ t')
                | (Inr gs, t') \<Rightarrow> (Inr (g # gs), t @ t'))))"

text \<open>
  The loop of \<^verbatim>\<open>main\<close> over the resolved groups, with the arguments \<^verbatim>\<open>main\<close> passes.
\<close>

fun update_security_groups ::
  "'s provider \<Rightarrow> 's \<Rightarrow> string list \<Rightarrow> string \<Rightarrow> string \<Rightarrow> bool \<Rightarrow>
     (exn + unit) \<times> event list \<times> 's" where
  "update_security_groups p s [] src_sg description dry_run = (Inr (), [], s)"
| "update_security_groups p s (rds_sg_id # rest) src_sg description dry_run =
     (case modify_security_group_rules p s rds_sg_id ''tcp'' 5432 5432 src_sg description
             dry_run of
        (Inl e, t, s') \<Rightarrow> (Inl e, t, s')
      | (Inr _, t, s') \<Rightarrow>
          (case update_security_groups p s' rest src_sg description dry_run of
             (r, t', s'') \<Rightarrow> (r, t @ t', s'')))"

definition main ::
  "'s provider \<Rightarrow> 's \<Rightarrow> bool \<Rightarrow> selection \<Rightarrow> string \<Rightarrow> string list \<Rightarrow>
     (exn + unit) \<times> event list \<times> 's" where
  "main p s dry_run service description rds_instances =
     (case get_source p s service of
        (Inl e, t0) \<Rightarrow> (Inl e, t0, s)
      | (Inr (service_name, src_sg), t0) \<Rightarrow>
          (case rds_security_groups p s rds_instances of
             (Inl e, t1) \<Rightarrow> (Inl e, t0 @ t1, s)
           | (Inr groups, t1) \<Rightarrow>
               (case update_security_groups p s groups src_sg description dry_run of
                  (r, t2, s') \<Rightarrow> (r, t0 @ t1 @ t2, s'))))"

subsection \<open>Reading the output\<close>

text \<open>
  The three lines that \<^verbatim>\<open>modify_security_group_rules\<close> can print are told apart by how
  they begin.
\<close>

definition is_dry_run_report :: "string \<Rightarrow> bool" where
  "is_dry_run_report l = prefix ''Dry run: '' l"

definition is_applied_report :: "string \<Rightarrow> bool" where
  "is_applied_report l = prefix ''Security Group '' l"

definition is_failed_report :: "string \<Rightarrow> bool" where
  "is_failed_report l = prefix ''Error updating Security Group: '' l"

subsection \<open>A concrete provider\<close>

text \<open>
  A small account for evaluating the run: the provider state is the list of ingress
  requests it has accepted. Database \<open>db-a\<close> has the group \<open>sg-a\<close>, \<open>db-c\<close> has
  \<open>sg-c\<close> and \<open>sg-c2\<close>, \<open>db-locked\<close> has \<open>sg-locked\<close>, on which the caller may not
  authorize ingress, \<open>db-far\<close> has \<open>sg-far\<close>, whose endpoint is unreachable; the lookup
  of \<open>db-gone\<close> raises; no other database instance exists.
\<close>

definition demo_describe_db_instances :: "string \<Rightarrow> exn + db_instance list" where
  "demo_describe_db_instances i =
     (if i = ''db-a'' then Inr [\<lparr>VpcSecurityGroups = [\<lparr>VpcSecurityGroupId = ''sg-a''\<rparr>]\<rparr>]
      else if i = ''db-c'' then
        Inr [\<lparr>VpcSecurityGroups =
                [\<lparr>VpcSecurityGroupId = ''sg-c''\<rparr>, \<lparr>VpcSecurityGroupId = ''sg-c2''\<rparr>]\<rparr>]
      else if i = ''db-locked'' then
        Inr [\<lparr>VpcSecurityGroups = [\<lparr>VpcSecurityGroupId = ''sg-locked''\<rparr>]\<rparr>]
      else if i = ''db-far'' then
        Inr [\<lparr>VpcSecurityGroups = [\<lparr>VpcSecurityGroupId = ''sg-far''\<rparr>]\<rparr>]
      else if i = ''db-gone'' then Inl (ClientError ''DBInstanceNotFound'')
      else Inr [])"

definition demo_describe_services :: "string \<Rightarrow> string \<Rightarrow> exn + ecs_service list" where
  "demo_describe_services cluster service_arn =
     (if service_arn = ''arn:aws:ecs:eu:1:service/web'' then
        Inr [\<lparr>deployments =
                [\<lparr>networkConfiguration =
                    Some \<lparr>awsvpcConfiguration =
                      Some \<lparr>securityGroups = Some [''sg-src1'', ''sg-src2'']\<rparr>\<rparr>\<rparr>,
                 \<lparr>networkConfiguration =
                    Some \<lparr>awsvpcConfiguration =
                      Some \<lparr>securityGroups = Some [''sg-old'']\<rparr>\<rparr>\<rparr>]\<rparr>]
      else if service_arn = ''arn:aws:ecs:eu:1:service/idle'' then
        Inr [\<lparr>deployments = []\<rparr>]
      else if service_arn = ''arn:aws:ecs:eu:1:service/bare'' then
        Inr [\<lparr>deployments =
                [\<lparr>networkConfiguration =
                    Some \<lparr>awsvpcConfiguration = Some \<lparr>securityGroups = Some []\<rparr>\<rparr>\<rparr>]\<rparr>]
      else Inr [])"

definition unauthorized_message :: string where
  "unauthorized_message =
     ''An error occurred (UnauthorizedOperation) when calling the '' @
     ''AuthorizeSecurityGroupIngress operation: You are not authorized to '' @
     ''perform this operation.''"

definition demo_authorize ::
  "ingress_request list \<Rightarrow> ingress_request \<Rightarrow> (exn + unit) \<times> ingress_request list" where
  "demo_authorize s req =
     (if GroupId req = ''sg-locked'' then (Inl (ClientError unauthorized_message), s)
      else if GroupId req = ''sg-far'' then (Inl (OtherError ''EndpointConnectionError''), s)
      else (Inr (), s @ [req]))"

definition demo :: "ingress_request list provider" where
  "demo =
     \<lparr>describe_services = (\<lambda>s. demo_describe_services),
      describe_db_instances = (\<lambda>s. demo_describe_db_instances),
      authorize_security_group_ingress = demo_authorize\<rparr>"



text \<open>The request that a run from \<open>sg-src1\<close> described as \<open>allow web\<close> issues.\<close>

definition demo_request :: "string \<Rightarrow> ingress_request" where
  "demo_request g = ingress_request_of g ''tcp'' 5432 5432 ''sg-src1'' ''allow web''"

section \<open>Properties\<close>

subsection \<open>Traces of the parts\<close>

lemma authorize_calls_append: "authorize_calls (a @ b) = authorize_calls a @ authorize_calls b"
  by (induction a rule: authorize_calls.induct) simp_all

lemma db_lookups_append: "db_lookups (a @ b) = db_lookups a @ db_lookups b"
  by (induction a rule: db_lookups.induct) simp_all

lemma printed_append: "printed (a @ b) = printed a @ printed b"
  by (induction a rule: printed.induct) simp_all

lemma report_kinds:
  "is_dry_run_report (dry_run_line g src)"
  "is_applied_report (success_line g)"
  "is_failed_report (error_line e)"
  "\<not> is_applied_report (dry_run_line g src)"
  "\<not> is_failed_report (dry_run_line g src)"
  "\<not> is_dry_run_report (success_line g)"
  "\<not> is_dry_run_report (error_line e)"
  "\<not> is_dry_run_report (fetch_error_line i e)"
  "\<not> is_applied_report (fetch_error_line i e)"
  "\<not> is_failed_report (fetch_error_line i e)"
  by (simp_all add: is_dry_run_report_def is_applied_report_def is_failed_report_def
        dry_run_line_def success_line_def error_line_def fetch_error_line_def)

lemma resolver_trace:
  "authorize_calls (snd (get_security_group_ids_for_rds_instance p s i)) = []"
  "db_lookups (snd (get_security_group_ids_for_rds_instance p s i)) = [i]"
  "\<forall>l \<in> set (printed (snd (get_security_group_ids_for_rds_instance p s i))).
      \<not> is_dry_run_report l \<and> \<not> is_applied_report l \<and> \<not> is_failed_report l"
  by (simp_all add: get_security_group_ids_for_rds_instance_def report_kinds
        split: sum.splits list.splits)

lemma rds_security_groups_no_authorize:
  "authorize_calls (snd (rds_security_groups p s is)) = []"
proof (induction "is")
  case Nil
  show ?case by simp
next
  case (Cons i "is")
  obtain ids t where g: "get_security_group_ids_for_rds_instance p s i = (ids, t)"
    by (cases "get_security_group_ids_for_rds_instance p s i")
  have t: "authorize_calls t = []" using resolver_trace(1) [of p s i] g by simp
  obtain r t' where rest: "rds_security_groups p s is = (r, t')"
    by (cases "rds_security_groups p s is")
  have t': "authorize_calls t' = []" using Cons.IH rest by simp
  show ?case using g t rest t'
    by (simp add: authorize_calls_append split: sum.splits)
qed

lemma rds_security_groups_printed:
  "\<forall>l \<in> set (printed (snd (rds_security_groups p s is))).
     \<not> is_dry_run_report l \<and> \<not> is_applied_report l \<and> \<not> is_failed_report l"
proof (induction "is")
  case Nil
  show ?case by simp
next
  case (Cons i "is")
  obtain ids t where g: "get_security_group_ids_for_rds_instance p s i = (ids, t)"
    by (cases "get_security_group_ids_for_rds_instance p s i")
  have t: "\<forall>l \<in> set (printed t).
      \<not> is_dry_run_report l \<and> \<not> is_applied_report l \<and> \<not> is_failed_report l"
    using resolver_trace(3) [of p s i] g by auto
  obtain r t' where rest: "rds_security_groups p s is = (r, t')"
    by (cases "rds_security_groups p s is")
  have t': "\<forall>l \<in> set (printed t').
      \<not> is_dry_run_report l \<and> \<not> is_applied_report l \<and> \<not> is_failed_report l" using Cons.IH rest by simp
  show ?case using g t rest t'
    by (auto simp add: printed_append split: sum.splits)
qed

lemma rds_security_groups_ok:
  "rds_security_groups p s is = (Inr gs, t) \<Longrightarrow>
     db_lookups t = is \<and>
     gs = map (\<lambda>i. hd (fst (get_security_group_ids_for_rds_instance p s i))) is \<and>
     (\<forall>i \<in> set is. fst (get_security_group_ids_for_rds_instance p s i) \<noteq> [])"
proof (induction "is" arbitrary: gs t)
  case Nil
  then show ?case by simp
next
  case (Cons i "is")
  obtain ids ti where g: "get_security_group_ids_for_rds_instance p s i = (ids, ti)"
    by (cases "get_security_group_ids_for_rds_instance p s i")
  have ti: "db_lookups ti = [i]" using resolver_trace(2) [of p s i] g by simp
  obtain r t' where rest: "rds_security_groups p s is = (r, t')"
    by (cases "rds_security_groups p s is")
  from Cons.prems g rest obtain g0 ids' gs' where
    ids: "ids = g0 # ids'" and r: "r = Inr gs'" and gs: "gs = g0 # gs'" and t: "t = ti @ t'"
    by (auto simp: index0_def split: list.splits sum.splits)
  have ih: "db_lookups t' = is \<and>
     gs' = map (\<lambda>i. hd (fst (get_security_group_ids_for_rds_instance p s i))) is \<and>
     (\<forall>i \<in> set is. fst (get_security_group_ids_for_rds_instance p s i) \<noteq> [])"
    using Cons.IH rest r by simp
  show ?case using ih g ids gs t ti by (simp add: db_lookups_append)
qed

lemma modify_trace:
  "modify_security_group_rules p s g pr fp tp src d dr = (r, t, s') \<Longrightarrow>
     db_lookups t = [] \<and>
     (dr \<longrightarrow> r = Inr () \<and> t = [Print (dry_run_line g src)] \<and> s' = s) \<and>
     (\<not> dr \<longrightarrow> authorize_calls t = [ingress_request_of g pr fp tp src d] \<and>
        (\<forall>l \<in> set (printed t). is_applied_report l \<or> is_failed_report l))"
  by (auto simp: modify_security_group_rules_def Let_def report_kinds
           split: if_splits prod.splits sum.splits exn.splits)

lemma update_dry_run:
  "update_security_groups p s gs src d True =
     (Inr (), map (\<lambda>g. Print (dry_run_line g src)) gs, s)"
  by (induction gs) (simp_all add: modify_security_group_rules_def)

lemma update_append:
  "update_security_groups p s (xs @ ys) src d dr =
     (case update_security_groups p s xs src d dr of
        (Inl e, t, s') \<Rightarrow> (Inl e, t, s')
      | (Inr u, t, s') \<Rightarrow>
          (case update_security_groups p s' ys src d dr of
             (r, t', s'') \<Rightarrow> (r, t @ t', s'')))"
proof (induction xs arbitrary: s)
  case Nil
  show ?case by (simp split: prod.splits)
next
  case (Cons x xs)
  show ?case
    by (simp add: Cons.IH split: prod.splits sum.splits)
qed

lemma update_trace:
  "update_security_groups p s gs src d dr = (r, t, s') \<Longrightarrow>
     db_lookups t = [] \<and>
     (\<not> dr \<longrightarrow>
        (\<exists>n \<le> length gs. authorize_calls t =
            map (\<lambda>g. ingress_request_of g ''tcp'' 5432 5432 src d) (take n gs) \<and>
            (r = Inr () \<longrightarrow> n = length gs)) \<and>
        (\<forall>l \<in> set (printed t). is_applied_report l \<or> is_failed_report l))"
proof (induction gs arbitrary: s r t s')
  case Nil
  then show ?case by simp
next
  case (Cons g gs)
  obtain r1 t1 s1 where m:
    "modify_security_group_rules p s g ''tcp'' 5432 5432 src d dr = (r1, t1, s1)"
    by (cases "modify_security_group_rules p s g ''tcp'' 5432 5432 src d dr")
  note mt = modify_trace [OF m]
  show ?case
  proof (cases r1)
    case (Inl e)
    with Cons.prems m have "r = Inl e" "t = t1" by simp_all
    with mt show ?thesis
      by (auto intro!: exI [of _ "Suc 0"])
  next
    case (Inr u)
    obtain r2 t2 s2 where u: "update_security_groups p s1 gs src d dr = (r2, t2, s2)"
      by (cases "update_security_groups p s1 gs src d dr")
    with Cons.prems m Inr have eq: "r = r2" "t = t1 @ t2" by simp_all
    note ih = Cons.IH [OF u]
    show ?thesis
    proof (cases dr)
      case True
      with ih mt eq show ?thesis by (simp add: db_lookups_append)
    next
      case False
      with ih obtain n where n: "n \<le> length gs"
        "authorize_calls t2 = map (\<lambda>g. ingress_request_of g ''tcp'' 5432 5432 src d) (take n gs)"
        "r2 = Inr () \<longrightarrow> n = length gs"
        by auto
      have "Suc n \<le> length (g # gs) \<and> authorize_calls t =
            map (\<lambda>g. ingress_request_of g ''tcp'' 5432 5432 src d) (take (Suc n) (g # gs)) \<and>
            (r = Inr () \<longrightarrow> Suc n = length (g # gs))"
        using n mt eq False by (simp add: authorize_calls_append)
      then have "\<exists>n \<le> length (g # gs). authorize_calls t =
            map (\<lambda>g. ingress_request_of g ''tcp'' 5432 5432 src d) (take n (g # gs)) \<and>
            (r = Inr () \<longrightarrow> n = length (g # gs))"
        by blast
      moreover have "\<forall>l \<in> set (printed t). is_applied_report l \<or> is_failed_report l"
        using ih mt eq False by (auto simp: printed_append)
      moreover have "db_lookups t = []" using ih mt eq by (simp add: db_lookups_append)
      ultimately show ?thesis using False by blast
    qed
  qed
qed



lemma get_source_trace:
  "authorize_calls (snd (get_source p s service)) = []"
  "db_lookups (snd (get_source p s service)) = []"
  "printed (snd (get_source p s service)) = []"
  by (cases service;
      simp add: get_ecs_security_group_def get_security_group_from_ecs_service_def
        split: prod.splits sum.splits)+

lemma no_report_filter:
  "\<forall>l \<in> set ls. \<not> P l \<Longrightarrow> filter P ls = []"
  by (induction ls) simp_all

lemma printed_dry_run_lines:
  "printed (map (\<lambda>g. Print (dry_run_line g src)) gs) = map (\<lambda>g. dry_run_line g src) gs"
  "authorize_calls (map (\<lambda>g. Print (dry_run_line g src)) gs) = []"
  by (induction gs) simp_all


subsection \<open>Runs against the concrete provider\<close>

lemma demo_source_ec2:
  "get_source demo [] (Ec2Instance ''web'' ''sg-src1'') = (Inr (''web'', ''sg-src1''), [])"
  by simp

lemma demo_source_web:
  "get_source demo [] (EcsService ''c'' ''arn:aws:ecs:eu:1:service/web'')
     = (Inr (''service/web'', ''sg-src1''),
        [DescribeServices ''c'' ''arn:aws:ecs:eu:1:service/web''])"
  by code_simp

lemma demo_run_locked_then_a:
  "main demo [] False (EcsService ''c'' ''arn:aws:ecs:eu:1:service/web'') ''allow web''
      [''db-locked'', ''db-a'']
   = (Inr (),
      [DescribeServices ''c'' ''arn:aws:ecs:eu:1:service/web'',
       DescribeDBInstances ''db-locked'', DescribeDBInstances ''db-a'',
       AuthorizeIngress (demo_request ''sg-locked''),
       Print (error_line (ClientError unauthorized_message)),
       AuthorizeIngress (demo_request ''sg-a''),
       Print (success_line ''sg-a'')],
      [demo_request ''sg-a''])"
  by code_simp

lemma demo_dry_run_a_c:
  "main demo [] True (Ec2Instance ''web'' ''sg-src1'') ''allow web'' [''db-a'', ''db-c'']
   = (Inr (),
      [DescribeDBInstances ''db-a'', DescribeDBInstances ''db-c'',
       Print (dry_run_line ''sg-a'' ''sg-src1''), Print (dry_run_line ''sg-c'' ''sg-src1'')],
      [])"
  by code_simp

lemma demo_run_a_gone:
  "main demo [] False (Ec2Instance ''web'' ''sg-src1'') ''allow web'' [''db-a'', ''db-gone'']
     = (Inl IndexError,
        [DescribeDBInstances ''db-a'', DescribeDBInstances ''db-gone'',
         Print (fetch_error_line ''db-gone'' (ClientError ''DBInstanceNotFound''))], [])"
  by code_simp

lemma demo_gone_raises:
  "index0 (fst (get_security_group_ids_for_rds_instance demo [] ''db-gone'')) = Inl IndexError"
  by code_simp






subsection \<open>Order of lookups and mutations\<close>

text \<open>
  Claim C10. Every lookup of a selected database instance comes before the first authorize
  call: the trace of a run splits into a part without authorize calls and a part without
  lookups, and if the second part holds an authorize call then the first holds the lookup
  of every selected instance, in order. Consequently, if \<^verbatim>\<open>[0]\<close> on the resolver's result
  raises for some selected instance, the run ends in an exception, no authorize call has
  been made and the provider state is the initial one.
\<close>

theorem lookups_precede_mutations:
  assumes "main p s dry_run service description rds_instances = (r, t, s')"
  shows "(\<exists>t1 t2. t = t1 @ t2 \<and> authorize_calls t1 = [] \<and> db_lookups t2 = [] \<and>
            (authorize_calls t2 \<noteq> [] \<longrightarrow> db_lookups t1 = rds_instances)) \<and>
         (\<forall>i \<in> set rds_instances. \<forall>e.
            index0 (fst (get_security_group_ids_for_rds_instance p s i)) = Inl e \<longrightarrow>
              (\<exists>e'. r = Inl e') \<and> authorize_calls t = [] \<and> s' = s)"
proof -
  obtain r0 t0 where src: "get_source p s service = (r0, t0)"
    by (cases "get_source p s service")
  have t0: "authorize_calls t0 = []" "db_lookups t0 = []"
    using get_source_trace(1,2) [of p s service] src by simp_all
  obtain r1 t1 where res: "rds_security_groups p s rds_instances = (r1, t1)"
    by (cases "rds_security_groups p s rds_instances")
  have t1: "authorize_calls t1 = []"
    using rds_security_groups_no_authorize [of p s rds_instances] res by simp
  show ?thesis
  proof (cases r0)
    case (Inl e0)
    with assms src have eq: "r = Inl e0" "t = t0" "s' = s" by (simp_all add: main_def)
    have "t = t0 @ [] \<and> authorize_calls t0 = [] \<and> db_lookups [] = [] \<and>
            (authorize_calls [] \<noteq> [] \<longrightarrow> db_lookups t0 = rds_instances)"
      using eq t0 by simp
    then have "\<exists>t1 t2. t = t1 @ t2 \<and> authorize_calls t1 = [] \<and> db_lookups t2 = [] \<and>
            (authorize_calls t2 \<noteq> [] \<longrightarrow> db_lookups t1 = rds_instances)"
      by blast
    with eq t0 show ?thesis by simp
  next
    case (Inr ns)
    obtain service_name src_sg where ns: "ns = (service_name, src_sg)" by (cases ns)
    show ?thesis
    proof (cases r1)
      case (Inl e1)
      with assms src res Inr ns have eq: "r = Inl e1" "t = t0 @ t1" "s' = s"
        by (simp_all add: main_def)
      have "t = (t0 @ t1) @ [] \<and> authorize_calls (t0 @ t1) = [] \<and> db_lookups [] = [] \<and>
            (authorize_calls [] \<noteq> [] \<longrightarrow> db_lookups (t0 @ t1) = rds_instances)"
        using eq t0 t1 by (simp add: authorize_calls_append)
      then have "\<exists>t1 t2. t = t1 @ t2 \<and> authorize_calls t1 = [] \<and> db_lookups t2 = [] \<and>
            (authorize_calls t2 \<noteq> [] \<longrightarrow> db_lookups t1 = rds_instances)"
        by blast
      with eq t0 t1 show ?thesis by (simp add: authorize_calls_append)
    next
      case (Inr groups)
      obtain r2 t2 s2 where upd:
        "update_security_groups p s groups src_sg description dry_run = (r2, t2, s2)"
        by (cases "update_security_groups p s groups src_sg description dry_run")
      with assms src res \<open>r0 = Inr ns\<close> ns Inr have eq: "r = r2" "t = t0 @ t1 @ t2" "s' = s2"
        by (simp_all add: main_def)
      have ok: "db_lookups t1 = rds_instances"
        "\<forall>i \<in> set rds_instances. fst (get_security_group_ids_for_rds_instance p s i) \<noteq> []"
        using rds_security_groups_ok [of p s rds_instances groups t1] res Inr by simp_all
      have t2: "db_lookups t2 = []" using update_trace [OF upd] by simp
      have "t = (t0 @ t1) @ t2 \<and> authorize_calls (t0 @ t1) = [] \<and> db_lookups t2 = [] \<and>
            (authorize_calls t2 \<noteq> [] \<longrightarrow> db_lookups (t0 @ t1) = rds_instances)"
        using eq t0 t1 t2 ok(1) by (simp add: authorize_calls_append db_lookups_append)
      then have "\<exists>t1 t2. t = t1 @ t2 \<and> authorize_calls t1 = [] \<and> db_lookups t2 = [] \<and>
            (authorize_calls t2 \<noteq> [] \<longrightarrow> db_lookups t1 = rds_instances)"
        by blast
      moreover have "\<forall>i \<in> set rds_instances. \<forall>e.
            index0 (fst (get_security_group_ids_for_rds_instance p s i)) \<noteq> Inl e"
        using ok(2) by (auto simp: index0_def split: list.splits)
      ultimately show ?thesis by blast
    qed
  qed
qed

theorem lookups_precede_mutations_witness:
  "main demo [] False (Ec2Instance ''web'' ''sg-src1'') ''allow web'' [''db-a'', ''db-gone'']
     = (Inl IndexError,
        [DescribeDBInstances ''db-a'', DescribeDBInstances ''db-gone'',
         Print (fetch_error_line ''db-gone'' (ClientError ''DBInstanceNotFound''))], []) \<and>
   index0 (fst (get_security_group_ids_for_rds_instance demo [] ''db-gone'')) = Inl IndexError \<and>
   authorize_calls
     [DescribeDBInstances ''db-a'', DescribeDBInstances ''db-gone'',
      Print (fetch_error_line ''db-gone'' (ClientError ''DBInstanceNotFound''))] = [] \<and>
   db_lookups
     [DescribeServices ''c'' ''arn:aws:ecs:eu:1:service/web'',
      DescribeDBInstances ''db-locked'', DescribeDBInstances ''db-a'',
      AuthorizeIngress (demo_request ''sg-locked''),
      Print (error_line (ClientError unauthorized_message)),
      AuthorizeIngress (demo_request ''sg-a''),
      Print (success_line ''sg-a'')] = [''db-locked'', ''db-a'']"
  using lookups_precede_mutations [OF demo_run_a_gone]
    lookups_precede_mutations [OF demo_run_locked_then_a] demo_run_a_gone demo_gone_raises
  by simp

subsection \<open>The rule and the dry-run flag\<close>




text \<open>
  Claim C9. The dry-run flag decides for the whole run. With the flag set the run makes no
  authorize call, leaves the provider state as it was and prints no applied or failed
  report, and if it completes it has printed one dry-run report per selected instance.
  Without the flag the run prints no dry-run report, and if it completes it has made one
  authorize call per selected instance.
\<close>

theorem dry_run_flag_uniform:
  assumes "main p s dry_run service description rds_instances = (r, t, s')"
  shows "(dry_run \<longrightarrow>
            authorize_calls t = [] \<and> s' = s \<and>
            (\<forall>l \<in> set (printed t). \<not> is_applied_report l \<and> \<not> is_failed_report l) \<and>
            (r = Inr () \<longrightarrow>
               length (filter is_dry_run_report (printed t)) = length rds_instances)) \<and>
         (\<not> dry_run \<longrightarrow>
            (\<forall>l \<in> set (printed t). \<not> is_dry_run_report l) \<and>
            (r = Inr () \<longrightarrow> length (authorize_calls t) = length rds_instances))"
proof -
  obtain r0 t0 where src: "get_source p s service = (r0, t0)"
    by (cases "get_source p s service")
  have t0: "authorize_calls t0 = []" "printed t0 = []"
    using get_source_trace(1,3) [of p s service] src by simp_all
  obtain r1 t1 where res: "rds_security_groups p s rds_instances = (r1, t1)"
    by (cases "rds_security_groups p s rds_instances")
  have t1: "authorize_calls t1 = []"
    "\<forall>l \<in> set (printed t1).
       \<not> is_dry_run_report l \<and> \<not> is_applied_report l \<and> \<not> is_failed_report l"
    using rds_security_groups_no_authorize [of p s rds_instances]
      rds_security_groups_printed [of p s rds_instances] res by simp_all
  show ?thesis
  proof (cases r0)
    case (Inl e0)
    with assms src have "r = Inl e0" "t = t0" "s' = s" by (simp_all add: main_def)
    with t0 show ?thesis by simp
  next
    case (Inr ns)
    obtain service_name src_sg where ns: "ns = (service_name, src_sg)" by (cases ns)
    show ?thesis
    proof (cases r1)
      case (Inl e1)
      with assms src res Inr ns have "r = Inl e1" "t = t0 @ t1" "s' = s"
        by (simp_all add: main_def)
      with t0 t1 show ?thesis by (simp add: authorize_calls_append printed_append)
    next
      case (Inr groups)
      obtain r2 t2 s2 where upd:
        "update_security_groups p s groups src_sg description dry_run = (r2, t2, s2)"
        by (cases "update_security_groups p s groups src_sg description dry_run")
      with assms src res \<open>r0 = Inr ns\<close> ns Inr have eq: "r = r2" "t = t0 @ t1 @ t2" "s' = s2"
        by (simp_all add: main_def)
      have len: "length groups = length rds_instances"
        using rds_security_groups_ok [of p s rds_instances groups t1] res Inr by simp
      have nodry: "filter is_dry_run_report (printed t1) = []"
        using t1(2) by (simp add: no_report_filter)
      show ?thesis
      proof (cases dry_run)
        case True
        with upd have u: "t2 = map (\<lambda>g. Print (dry_run_line g src_sg)) groups" "s2 = s"
          by (simp_all add: update_dry_run)
        have "filter is_dry_run_report (printed t2) = printed t2"
          using u(1) by (simp add: printed_dry_run_lines report_kinds)
        then have "length (filter is_dry_run_report (printed t)) = length rds_instances"
          using eq(2) t0(2) nodry u(1) len by (simp add: printed_append printed_dry_run_lines)
        moreover have "\<forall>l \<in> set (printed t). \<not> is_applied_report l \<and> \<not> is_failed_report l"
          using eq(2) t0(2) t1(2) u(1)
          by (auto simp: printed_append printed_dry_run_lines report_kinds)
        moreover have "authorize_calls t = []"
          using eq(2) t0(1) t1(1) u(1)
          by (simp add: authorize_calls_append printed_dry_run_lines)
        ultimately show ?thesis using True eq(3) u(2) by simp
      next
        case False
        with update_trace [OF upd] obtain n where n: "n \<le> length groups"
          "authorize_calls t2 =
             map (\<lambda>g. ingress_request_of g ''tcp'' 5432 5432 src_sg description) (take n groups)"
          "r2 = Inr () \<longrightarrow> n = length groups"
          and lines: "\<forall>l \<in> set (printed t2). is_applied_report l \<or> is_failed_report l"
          by auto
        have "\<forall>l \<in> set (printed t2). \<not> is_dry_run_report l"
        proof
          fix l assume "l \<in> set (printed t2)"
          with lines have "is_applied_report l \<or> is_failed_report l" by simp
          then show "\<not> is_dry_run_report l"
            by (auto simp: is_applied_report_def is_failed_report_def is_dry_run_report_def
                  prefix_def)
        qed
        then have "\<forall>l \<in> set (printed t). \<not> is_dry_run_report l"
          using eq(2) t0(2) t1(2) by (auto simp: printed_append)
        moreover have "r = Inr () \<longrightarrow> length (authorize_calls t) = length rds_instances"
          using eq(1,2) t0(1) t1(1) n len by (simp add: authorize_calls_append)
        ultimately show ?thesis using False by simp
      qed
    qed
  qed
qed

theorem dry_run_flag_uniform_witness:
  "authorize_calls
     [DescribeDBInstances ''db-a'', DescribeDBInstances ''db-c'',
      Print (dry_run_line ''sg-a'' ''sg-src1''), Print (dry_run_line ''sg-c'' ''sg-src1'')] = [] \<and>
   length (filter is_dry_run_report
     [dry_run_line ''sg-a'' ''sg-src1'', dry_run_line ''sg-c'' ''sg-src1''])
     = length [''db-a'', ''db-c''] \<and>
   \<not> is_dry_run_report (error_line (ClientError unauthorized_message)) \<and>
   \<not> is_dry_run_report (success_line ''sg-a'') \<and>
   length [demo_request ''sg-locked'', demo_request ''sg-a''] = length [''db-locked'', ''db-a'']"
  using dry_run_flag_uniform [OF demo_dry_run_a_c] dry_run_flag_uniform [OF demo_run_locked_then_a]
  by simp

subsection \<open>Failures of single targets\<close>

text \<open>
  Claim C4. Let the selected instances resolve to the groups \<open>pre @ T # mid @ U # post\<close>,
  let the updates of \<open>pre\<close> complete, let the authorize call for \<open>T\<close> raise a
  \<open>ClientError\<close>, let the updates of \<open>mid\<close> complete and let the authorize call for \<open>U\<close>
  succeed. Then the run catches the error of \<open>T\<close> and prints it, goes on through \<open>mid\<close>,
  makes the authorize call for \<open>U\<close>, prints its success, and continues with \<open>post\<close>
  from the state that the call for \<open>U\<close> left.
\<close>

theorem failed_mutation_does_not_block_later_target:
  assumes "get_source p s service = (Inr (service_name, src_sg), t0)"
      and "rds_security_groups p s rds_instances = (Inr (pre @ T # mid @ U # post), t1)"
      and "update_security_groups p s pre src_sg description False = (Inr (), tp, s1)"
      and "authorize_security_group_ingress p s1
             (ingress_request_of T ''tcp'' 5432 5432 src_sg description)
           = (Inl (ClientError m), s2)"
      and "update_security_groups p s2 mid src_sg description False = (Inr (), tm, s3)"
      and "authorize_security_group_ingress p s3
             (ingress_request_of U ''tcp'' 5432 5432 src_sg description)
           = (Inr (), s4)"
      and "update_security_groups p s4 post src_sg description False = (r, tq, s5)"
  shows "main p s False service description rds_instances =
           (r,
            t0 @ t1 @ tp @
            [AuthorizeIngress (ingress_request_of T ''tcp'' 5432 5432 src_sg description),
             Print (error_line (ClientError m))] @
            tm @
            [AuthorizeIngress (ingress_request_of U ''tcp'' 5432 5432 src_sg description),
             Print (success_line U)] @
            tq,
            s5)"
proof -
  have stepU: "update_security_groups p s3 (U # post) src_sg description False =
      (r, [AuthorizeIngress (ingress_request_of U ''tcp'' 5432 5432 src_sg description),
           Print (success_line U)] @ tq, s5)"
    using assms(6,7) by (simp add: modify_security_group_rules_def)
  have midU: "update_security_groups p s2 (mid @ U # post) src_sg description False =
      (r, tm @ [AuthorizeIngress (ingress_request_of U ''tcp'' 5432 5432 src_sg description),
           Print (success_line U)] @ tq, s5)"
    using assms(5) stepU by (simp add: update_append)
  have stepT: "update_security_groups p s1 (T # mid @ U # post) src_sg description False =
      (r, [AuthorizeIngress (ingress_request_of T ''tcp'' 5432 5432 src_sg description),
           Print (error_line (ClientError m))] @
          tm @ [AuthorizeIngress (ingress_request_of U ''tcp'' 5432 5432 src_sg description),
           Print (success_line U)] @ tq, s5)"
    using assms(4) midU by (simp add: modify_security_group_rules_def)
  have all: "update_security_groups p s (pre @ T # mid @ U # post) src_sg description False =
      (r, tp @ [AuthorizeIngress (ingress_request_of T ''tcp'' 5432 5432 src_sg description),
           Print (error_line (ClientError m))] @
          tm @ [AuthorizeIngress (ingress_request_of U ''tcp'' 5432 5432 src_sg description),
           Print (success_line U)] @ tq, s5)"
    using assms(3) stepT by (simp add: update_append)
  show ?thesis using assms(1,2) all by (simp add: main_def)
qed

lemma demo_resolve_four:
  "rds_security_groups demo [] [''db-a'', ''db-locked'', ''db-c'', ''db-a''] =
     (Inr ([''sg-a''] @ ''sg-locked'' # [''sg-c''] @ ''sg-a'' # []),
      [DescribeDBInstances ''db-a'', DescribeDBInstances ''db-locked'',
       DescribeDBInstances ''db-c'', DescribeDBInstances ''db-a''])"
  by code_simp

lemma demo_update_a:
  "update_security_groups demo [] [''sg-a''] ''sg-src1'' ''allow web'' False =
     (Inr (), [AuthorizeIngress (demo_request ''sg-a''), Print (success_line ''sg-a'')],
      [demo_request ''sg-a''])"
  by code_simp

lemma demo_authorize_locked:
  "authorize_security_group_ingress demo [demo_request ''sg-a'']
     (ingress_request_of ''sg-locked'' ''tcp'' 5432 5432 ''sg-src1'' ''allow web'') =
     (Inl (ClientError unauthorized_message), [demo_request ''sg-a''])"
  by code_simp

lemma demo_update_c:
  "update_security_groups demo [demo_request ''sg-a''] [''sg-c''] ''sg-src1'' ''allow web'' False =
     (Inr (), [AuthorizeIngress (demo_request ''sg-c''), Print (success_line ''sg-c'')],
      [demo_request ''sg-a'', demo_request ''sg-c''])"
  by code_simp

lemma demo_authorize_a_again:
  "authorize_security_group_ingress demo [demo_request ''sg-a'', demo_request ''sg-c'']
     (ingress_request_of ''sg-a'' ''tcp'' 5432 5432 ''sg-src1'' ''allow web'') =
     (Inr (), [demo_request ''sg-a'', demo_request ''sg-c'', demo_request ''sg-a''])"
  by code_simp

lemma demo_update_none:
  "update_security_groups demo
     [demo_request ''sg-a'', demo_request ''sg-c'', demo_request ''sg-a''] []
     ''sg-src1'' ''allow web'' False =
     (Inr (), [], [demo_request ''sg-a'', demo_request ''sg-c'', demo_request ''sg-a''])"
  by simp

theorem failed_mutation_does_not_block_later_target_witness:
  "main demo [] False (Ec2Instance ''web'' ''sg-src1'') ''allow web''
     [''db-a'', ''db-locked'', ''db-c'', ''db-a''] =
     (Inr (),
      [DescribeDBInstances ''db-a'', DescribeDBInstances ''db-locked'',
       DescribeDBInstances ''db-c'', DescribeDBInstances ''db-a'',
       AuthorizeIngress (demo_request ''sg-a''), Print (success_line ''sg-a''),
       AuthorizeIngress (demo_request ''sg-locked''),
       Print (error_line (ClientError unauthorized_message)),
       AuthorizeIngress (demo_request ''sg-c''), Print (success_line ''sg-c''),
       AuthorizeIngress (demo_request ''sg-a''), Print (success_line ''sg-a'')],
      [demo_request ''sg-a'', demo_request ''sg-c'', demo_request ''sg-a''])"
  using failed_mutation_does_not_block_later_target
    [OF demo_source_ec2 demo_resolve_four demo_update_a demo_authorize_locked demo_update_c
      demo_authorize_a_again demo_update_none]
  by (simp add: demo_request_def)

subsection \<open>The resolvers\<close>

text \<open>
  Claim C6. For an ECS service the source is the first security group of the first
  deployment of the service the provider describes. A service without deployments, or
  whose first deployment lists no security group, makes the resolution raise
  \<open>IndexError\<close>; and any exception of the resolution ends the run at once: nothing but
  the service has been looked up, and the provider state is the initial one.
\<close>

theorem ecs_source_first_group_or_abort:
  "(\<forall>svc svcs d ds g gs.
      describe_services p s cluster service_arn = Inr (svc # svcs) \<and>
      deployments svc = d # ds \<and> deployment_security_groups d = Inr (g # gs) \<longrightarrow>
        fst (get_security_group_from_ecs_service p s cluster service_arn) = Inr g) \<and>
   (\<forall>svc svcs.
      describe_services p s cluster service_arn = Inr (svc # svcs) \<and>
      (deployments svc = [] \<or>
       (\<exists>d ds. deployments svc = d # ds \<and> deployment_security_groups d = Inr [])) \<longrightarrow>
        fst (get_security_group_from_ecs_service p s cluster service_arn) = Inl IndexError) \<and>
   (\<forall>e. fst (get_security_group_from_ecs_service p s cluster service_arn) = Inl e \<longrightarrow>
      main p s dry_run (EcsService cluster service_arn) description rds_instances =
        (Inl e, [DescribeServices cluster service_arn], s))"
proof -
  have first: "\<And>svc svcs d ds g gs.
      describe_services p s cluster service_arn = Inr (svc # svcs) \<Longrightarrow>
      deployments svc = d # ds \<Longrightarrow> deployment_security_groups d = Inr (g # gs) \<Longrightarrow>
      fst (get_security_group_from_ecs_service p s cluster service_arn) = Inr g"
    by (simp add: get_security_group_from_ecs_service_def then_exn_def index0_def)
  have none: "\<And>svc svcs.
      describe_services p s cluster service_arn = Inr (svc # svcs) \<Longrightarrow>
      deployments svc = [] \<Longrightarrow>
      fst (get_security_group_from_ecs_service p s cluster service_arn) = Inl IndexError"
    by (simp add: get_security_group_from_ecs_service_def then_exn_def index0_def)
  have empty: "\<And>svc svcs d ds.
      describe_services p s cluster service_arn = Inr (svc # svcs) \<Longrightarrow>
      deployments svc = d # ds \<Longrightarrow> deployment_security_groups d = Inr [] \<Longrightarrow>
      fst (get_security_group_from_ecs_service p s cluster service_arn) = Inl IndexError"
    by (simp add: get_security_group_from_ecs_service_def then_exn_def index0_def)
  have abort: "\<And>e. fst (get_security_group_from_ecs_service p s cluster service_arn) = Inl e \<Longrightarrow>
      main p s dry_run (EcsService cluster service_arn) description rds_instances =
        (Inl e, [DescribeServices cluster service_arn], s)"
    by (simp add: main_def get_ecs_security_group_def get_security_group_from_ecs_service_def)
  from first none empty abort show ?thesis by blast
qed

theorem ecs_source_first_group_or_abort_witness:
  "fst (get_security_group_from_ecs_service demo [] ''c'' ''arn:aws:ecs:eu:1:service/web'')
     = Inr ''sg-src1'' \<and>
   main demo [] False (EcsService ''c'' ''arn:aws:ecs:eu:1:service/idle'') ''allow idle''
     [''db-a''] = (Inl IndexError, [DescribeServices ''c'' ''arn:aws:ecs:eu:1:service/idle''], []) \<and>
   main demo [] False (EcsService ''c'' ''arn:aws:ecs:eu:1:service/bare'') ''allow bare''
     [''db-a''] = (Inl IndexError, [DescribeServices ''c'' ''arn:aws:ecs:eu:1:service/bare''], [])"
proof -
  let ?d1 = "\<lparr>networkConfiguration =
               Some \<lparr>awsvpcConfiguration =
                 Some \<lparr>securityGroups = Some [''sg-src1'', ''sg-src2'']\<rparr>\<rparr>\<rparr>"
  let ?d2 = "\<lparr>networkConfiguration =
               Some \<lparr>awsvpcConfiguration = Some \<lparr>securityGroups = Some [''sg-old'']\<rparr>\<rparr>\<rparr>"
  let ?d3 = "\<lparr>networkConfiguration =
               Some \<lparr>awsvpcConfiguration = Some \<lparr>securityGroups = Some []\<rparr>\<rparr>\<rparr>"
  have web: "describe_services demo [] ''c'' ''arn:aws:ecs:eu:1:service/web''
      = Inr (\<lparr>deployments = [?d1, ?d2]\<rparr> # [])"
    by (simp add: demo_def demo_describe_services_def)
  have idle: "describe_services demo [] ''c'' ''arn:aws:ecs:eu:1:service/idle''
      = Inr (\<lparr>deployments = []\<rparr> # [])"
    by (simp add: demo_def demo_describe_services_def)
  have bare: "describe_services demo [] ''c'' ''arn:aws:ecs:eu:1:service/bare''
      = Inr (\<lparr>deployments = [?d3]\<rparr> # [])"
    by (simp add: demo_def demo_describe_services_def)
  have g1: "deployment_security_groups ?d1 = Inr (''sg-src1'' # [''sg-src2''])"
    by (simp add: deployment_security_groups_def then_exn_def getitem_def)
  have g3: "deployment_security_groups ?d3 = Inr []"
    by (simp add: deployment_security_groups_def then_exn_def getitem_def)
  have a: "fst (get_security_group_from_ecs_service demo [] ''c''
      ''arn:aws:ecs:eu:1:service/web'') = Inr ''sg-src1''"
    using ecs_source_first_group_or_abort
      [of demo "[]" "''c''" "''arn:aws:ecs:eu:1:service/web''"] web g1
    by simp
  have b: "main demo [] False (EcsService ''c'' ''arn:aws:ecs:eu:1:service/idle'')
      ''allow idle'' [''db-a'']
      = (Inl IndexError, [DescribeServices ''c'' ''arn:aws:ecs:eu:1:service/idle''], [])"
    using ecs_source_first_group_or_abort
      [of demo "[]" "''c''" "''arn:aws:ecs:eu:1:service/idle''" False "''allow idle''"
        "[''db-a'']"] idle
    by simp
  have c: "main demo [] False (EcsService ''c'' ''arn:aws:ecs:eu:1:service/bare'')
      ''allow bare'' [''db-a'']
      = (Inl IndexError, [DescribeServices ''c'' ''arn:aws:ecs:eu:1:service/bare''], [])"
    using ecs_source_first_group_or_abort
      [of demo "[]" "''c''" "''arn:aws:ecs:eu:1:service/bare''" False "''allow bare''"
        "[''db-a'']"] bare g3
    by simp
  from a b c show ?thesis by simp
qed

text \<open>
  Claim C7. The target resolver returns the empty list, without raising, when the lookup
  raises (it prints the error) and when the provider reports no matching instance. When
  the provider reports an instance that has a security group, the run takes the first
  security group of the first instance reported.
\<close>

theorem target_resolution_empty_or_first:
  "(\<forall>e. describe_db_instances p s i = Inl e \<longrightarrow>
      get_security_group_ids_for_rds_instance p s i =
        ([], [DescribeDBInstances i, Print (fetch_error_line i e)])) \<and>
   (describe_db_instances p s i = Inr [] \<longrightarrow>
      get_security_group_ids_for_rds_instance p s i = ([], [DescribeDBInstances i])) \<and>
   (\<forall>d ds g gs. describe_db_instances p s i = Inr (d # ds) \<and> VpcSecurityGroups d = g # gs \<longrightarrow>
      rds_security_groups p s [i] = (Inr [VpcSecurityGroupId g], [DescribeDBInstances i]))"
  by (simp add: get_security_group_ids_for_rds_instance_def index0_def)

theorem target_resolution_empty_or_first_witness:
  "get_security_group_ids_for_rds_instance demo [] ''db-gone'' =
     ([], [DescribeDBInstances ''db-gone'',
           Print (fetch_error_line ''db-gone'' (ClientError ''DBInstanceNotFound''))]) \<and>
   get_security_group_ids_for_rds_instance demo [] ''db-b'' = ([], [DescribeDBInstances ''db-b'']) \<and>
   rds_security_groups demo [] [''db-c''] = (Inr [''sg-c''], [DescribeDBInstances ''db-c''])"
proof -
  have gone: "describe_db_instances demo [] ''db-gone'' = Inl (ClientError ''DBInstanceNotFound'')"
    by (simp add: demo_def demo_describe_db_instances_def)
  have b: "describe_db_instances demo [] ''db-b'' = Inr []"
    by (simp add: demo_def demo_describe_db_instances_def)
  have c: "describe_db_instances demo [] ''db-c'' =
      Inr (\<lparr>VpcSecurityGroups =
              \<lparr>VpcSecurityGroupId = ''sg-c''\<rparr> # [\<lparr>VpcSecurityGroupId = ''sg-c2''\<rparr>]\<rparr> # [])"
    by (simp add: demo_def demo_describe_db_instances_def)
  show ?thesis
    using target_resolution_empty_or_first [of demo "[]" "''db-gone''"]
      target_resolution_empty_or_first [of demo "[]" "''db-b''"]
      target_resolution_empty_or_first [of demo "[]" "''db-c''"] gone b c
    by simp
qed

subsection \<open>Where the run departs from its specification\<close>

text \<open>
  Claim C1 says that a selected instance without a security group is skipped and the
  other targets are still processed. The first run below selects \<open>db-a\<close>, which has
  \<open>sg-a\<close>, and \<open>db-b\<close>, for which the provider reports no instance: it ends in
  \<open>IndexError\<close> after the two lookups, and no authorize call is made for \<open>sg-a\<close>. The
  second selects \<open>db-gone\<close>, whose lookup raises, before \<open>db-a\<close>: the resolver
  prints the error and returns the empty list, and the run ends in \<open>IndexError\<close>
  before \<open>db-a\<close> is looked up.
\<close>

theorem unresolved_target_aborts_run:
  "main demo [] False (Ec2Instance ''web'' ''sg-src1'') ''allow web'' [''db-a'', ''db-b''] =
     (Inl IndexError, [DescribeDBInstances ''db-a'', DescribeDBInstances ''db-b''], []) \<and>
   main demo [] False (Ec2Instance ''web'' ''sg-src1'') ''allow web'' [''db-gone'', ''db-a''] =
     (Inl IndexError,
      [DescribeDBInstances ''db-gone'',
       Print (fetch_error_line ''db-gone'' (ClientError ''DBInstanceNotFound''))], [])"
  by code_simp

text \<open>
  Claim C2 says that a run prints one outcome per selected instance, however many are
  unresolved. The run below selects three instances of which the second is unresolved:
  it prints no line and makes no authorize call.
\<close>

theorem no_outcome_for_any_of_three_targets:
  "printed (fst (snd (main demo [] False (Ec2Instance ''web'' ''sg-src1'') ''allow web''
      [''db-a'', ''db-b'', ''db-c'']))) = [] \<and>
   authorize_calls (fst (snd (main demo [] False (Ec2Instance ''web'' ''sg-src1'') ''allow web''
      [''db-a'', ''db-b'', ''db-c'']))) = []"
  by code_simp

text \<open>
  Claim C3 says that a dry run reports every resolvable target. In the dry run below
  \<open>db-a\<close> resolves to \<open>sg-a\<close> and \<open>db-b\<close> is unresolved: the run ends in
  \<open>IndexError\<close> and prints no report for \<open>sg-a\<close>.
\<close>

theorem dry_run_reports_nothing_when_a_target_is_unresolved:
  "fst (get_security_group_ids_for_rds_instance demo [] ''db-a'') = [''sg-a''] \<and>
   main demo [] True (Ec2Instance ''web'' ''sg-src1'') ''allow web'' [''db-a'', ''db-b''] =
     (Inl IndexError, [DescribeDBInstances ''db-a'', DescribeDBInstances ''db-b''], [])"
  by code_simp

text \<open>
  Claim C5 says that every outcome line names its target. In the run below the authorize
  call for \<open>sg-locked\<close>, the group of \<open>db-locked\<close>, raises a \<open>ClientError\<close>: the line
  printed holds the text of the error and neither the group nor the instance.
\<close>

theorem failed_line_does_not_name_target:
  "main demo [] False (Ec2Instance ''web'' ''sg-src1'') ''allow web'' [''db-locked''] =
     (Inr (),
      [DescribeDBInstances ''db-locked'', AuthorizeIngress (demo_request ''sg-locked''),
       Print (error_line (ClientError unauthorized_message))],
      []) \<and>
   \<not> sublist ''sg-locked'' (error_line (ClientError unauthorized_message)) \<and>
   \<not> sublist ''db-locked'' (error_line (ClientError unauthorized_message))"
  by code_simp

end
